theory Spec2Isabelle
  imports Complex_Main "HOL-Library.Multiset"
begin

section \<open>The vial consumption simulator (simulator.py)\<close>

text \<open>
  The class \<^verbatim>\<open>InjectionSimulator\<close> is embedded with explicit state passing: the
  object's attributes form the record \<open>simulator\<close>, every method takes the record and
  returns the updated one, and every exception the Python can raise (\<^verbatim>\<open>IndexError\<close>
  on a list read out of range, \<^verbatim>\<open>ZeroDivisionError\<close> on \<^verbatim>\<open>day % 0\<close>) is a
  value \<open>Inl e\<close> of the result.

  Volumes are Python floats in the source. They are modelled by exact rational
  arithmetic (\<open>rat\<close>): every theorem below is about the idealised arithmetic, not about
  the rounding of IEEE doubles. Counts, intervals and days are Python integers
  (\<open>int\<close>); Python's \<^verbatim>\<open>%\<close> on integers takes the sign of the divisor, as \<open>mod\<close> on
  \<open>int\<close> does.
\<close>

datatype error = IndexError | ZeroDivisionError

subsection \<open>Data\<close>

text \<open>One entry of \<^verbatim>\<open>dosage_dicts\<close>: the dict with keys dosage, frequency, name.\<close>

record person =
  dosage :: rat
  frequency :: int
  name :: string

text \<open>
  The attributes of the object. \<^verbatim>\<open>day\<close> is created by \<^verbatim>\<open>run_simulation\<close>, which
  sets it to 1 before the loop; the constructor's record holds 0 for it until then.
\<close>

record simulator =
  total_people :: int
  num_vials :: int
  vial_volume :: rat
  dosage_dicts :: "person list"
  injections_handled :: "bool list"
  leftover_vial :: bool
  leftover_amount :: rat
  vials_used :: int
  waste :: rat
  left_in_vial :: rat
  early_termination :: bool
  day :: int

subsection \<open>The constructor\<close>

text \<open>
  Python's \<^verbatim>\<open>round(x, 2)\<close>: the nearest multiple of 1/100, a tie going to the even
  multiple.
\<close>

definition round_half_even :: "rat \<Rightarrow> int" where
  "round_half_even x =
     (if x - of_int \<lfloor>x\<rfloor> < 1 / 2 then \<lfloor>x\<rfloor>
      else if 1 / 2 < x - of_int \<lfloor>x\<rfloor> then \<lfloor>x\<rfloor> + 1
      else if even \<lfloor>x\<rfloor> then \<lfloor>x\<rfloor> else \<lfloor>x\<rfloor> + 1)"

definition round2 :: "rat \<Rightarrow> rat" where
  "round2 x = of_int (round_half_even (x * 100)) / 100"

text \<open>
  \<^verbatim>\<open>dose_info\<close> is a flat sequence in the source, the daily rate of person \<open>i\<close> at
  index \<open>2 * i\<close> and the interval at index \<open>2 * i + 1\<close>. It is modelled as the list of
  these pairs; reading either index beyond the end raises \<^verbatim>\<open>IndexError\<close>, and so does
  \<^verbatim>\<open>namelist[i]\<close>.
\<close>

definition dosage_info :: "string list \<Rightarrow> (rat \<times> int) list \<Rightarrow> nat \<Rightarrow> error + person" where
  "dosage_info namelist dose_info i =
     (if i < length dose_info \<and> i < length namelist
      then Inr \<lparr>dosage = round2 (fst (dose_info ! i) * of_int (snd (dose_info ! i))),
                frequency = snd (dose_info ! i),
                name = namelist ! i\<rparr>
      else Inl IndexError)"

text \<open>The loop \<^verbatim>\<open>for i in range(total_people)\<close> that appends one dict per person.\<close>

fun collect_dicts :: "string list \<Rightarrow> (rat \<times> int) list \<Rightarrow> nat list \<Rightarrow> error + person list" where
  "collect_dicts namelist dose_info [] = Inr []"
| "collect_dicts namelist dose_info (i # is) =
     (case dosage_info namelist dose_info i of
        Inl e \<Rightarrow> Inl e
      | Inr p \<Rightarrow>
          (case collect_dicts namelist dose_info is of
             Inl e \<Rightarrow> Inl e
           | Inr ps \<Rightarrow> Inr (p # ps)))"

text \<open>
  \<^verbatim>\<open>sorted(..., key=dosage, reverse=True)\<close> is a stable sort into descending order
  of dosage: the stable insertion sort on the negated key.
\<close>

definition sorted_desc :: "person list \<Rightarrow> person list" where
  "sorted_desc ds = sort_key (\<lambda>p. - dosage p) ds"

definition check_legal_dosages :: "simulator \<Rightarrow> error + simulator" where
  "check_legal_dosages s =
     (case dosage_dicts s of
        [] \<Rightarrow> Inl IndexError
      | p # ps \<Rightarrow>
          (let s1 = s\<lparr>early_termination := False\<rparr>;
               s2 = (if vial_volume s1 < dosage p
                     then s1\<lparr>early_termination := True\<rparr> else s1);
               s3 = (if dosage (last (dosage_dicts s2)) \<le> 0
                     then s2\<lparr>early_termination := True\<rparr> else s2)
           in Inr s3))"

definition init :: "int \<Rightarrow> string list \<Rightarrow> (rat \<times> int) list \<Rightarrow> int \<Rightarrow> rat \<Rightarrow> error + simulator" where
  "init tp namelist dose_info nv vv =
     (case collect_dicts namelist dose_info [0..<nat tp] of
        Inl e \<Rightarrow> Inl e
      | Inr ds \<Rightarrow>
          check_legal_dosages
            \<lparr>total_people = tp, num_vials = nv, vial_volume = vv,
             dosage_dicts = sorted_desc ds,
             injections_handled = replicate (nat tp) False,
             leftover_vial = False, leftover_amount = 0, vials_used = 0,
             waste = 0, left_in_vial = vv, early_termination = False, day = 0\<rparr>)"

subsection \<open>One injection attempt\<close>

definition do_injection :: "rat \<Rightarrow> simulator \<Rightarrow> error + (bool \<times> simulator)" where
  "do_injection dose s =
     (if leftover_vial s \<and> 0 \<le> leftover_amount s - dose then
        (let s1 = s\<lparr>leftover_amount := leftover_amount s - dose\<rparr> in
         case dosage_dicts s1 of
           [] \<Rightarrow> Inl IndexError
         | p # ps \<Rightarrow>
             if leftover_amount s1 - dosage (last (dosage_dicts s1)) < 0
             then Inr (True, s1\<lparr>waste := waste s1 + leftover_amount s1,
                                leftover_vial := False\<rparr>)
             else Inr (True, s1))
      else if 0 \<le> left_in_vial s - dose then
        Inr (True, s\<lparr>left_in_vial := left_in_vial s - dose\<rparr>)
      else Inr (False, s))"

subsection \<open>Vial replacement\<close>

definition update_vials_used :: "simulator \<Rightarrow> error + simulator" where
  "update_vials_used s =
     (case dosage_dicts s of
        [] \<Rightarrow> Inl IndexError
      | p # ps \<Rightarrow>
          if left_in_vial s < dosage (last (dosage_dicts s)) then
            Inr (s\<lparr>waste := waste s + left_in_vial s,
                   vials_used := vials_used s + 1,
                   left_in_vial := vial_volume s\<rparr>)
          else if dosage (last (dosage_dicts s)) \<le> left_in_vial s
                  \<and> left_in_vial s < dosage p then
            Inr (s\<lparr>leftover_vial := True,
                   leftover_amount := left_in_vial s,
                   vials_used := vials_used s + 1,
                   left_in_vial := vial_volume s\<rparr>)
          else Inr s)"

subsection \<open>The day-stepping loop\<close>

text \<open>
  One pass of \<^verbatim>\<open>for i in range(self.total_people)\<close> over the indices given.
  \<^verbatim>\<open>self.dosage_dicts[i]\<close> is read first, then the remainder is taken, then
  \<^verbatim>\<open>self.injections_handled[i]\<close> is read or assigned on either branch.
\<close>

fun for_people :: "nat list \<Rightarrow> simulator \<Rightarrow> error + simulator" where
  "for_people [] s = Inr s"
| "for_people (i # is) s =
     (if length (dosage_dicts s) \<le> i then Inl IndexError
      else if frequency (dosage_dicts s ! i) = 0 then Inl ZeroDivisionError
      else if length (injections_handled s) \<le> i then Inl IndexError
      else if day s mod frequency (dosage_dicts s ! i) = 0 \<and> \<not> injections_handled s ! i then
        (case do_injection (dosage (dosage_dicts s ! i)) s of
           Inl e \<Rightarrow> Inl e
         | Inr (ok, s1) \<Rightarrow>
             for_people is (s1\<lparr>injections_handled := (injections_handled s1)[i := ok]\<rparr>))
      else for_people is (s\<lparr>injections_handled := (injections_handled s)[i := True]\<rparr>))"

text \<open>
  \<^verbatim>\<open>while False in self.injections_handled\<close>: each pass runs the for loop and then
  \<^verbatim>\<open>update_vials_used\<close>. The first argument bounds the number of passes; \<open>None\<close>
  says that the loop needs more passes than that.
\<close>

fun while_unhandled :: "nat \<Rightarrow> simulator \<Rightarrow> (error + simulator) option" where
  "while_unhandled 0 s =
     (if False \<in> set (injections_handled s) then None else Some (Inr s))"
| "while_unhandled (Suc k) s =
     (if False \<in> set (injections_handled s) then
        (case for_people [0..<nat (total_people s)] s of
           Inl e \<Rightarrow> Some (Inl e)
         | Inr s1 \<Rightarrow>
             (case update_vials_used s1 of
                Inl e \<Rightarrow> Some (Inl e)
              | Inr s2 \<Rightarrow> while_unhandled k s2))
      else Some (Inr s))"

text \<open>
  \<^verbatim>\<open>while self.vials_used < self.num_vials\<close>: the first argument bounds the number
  of days processed, the second the number of passes on each day.
\<close>

fun while_vials :: "nat \<Rightarrow> nat \<Rightarrow> simulator \<Rightarrow> (error + simulator) option" where
  "while_vials 0 k s =
     (if vials_used s < num_vials s then None else Some (Inr s))"
| "while_vials (Suc n) k s =
     (if vials_used s < num_vials s then
        (case while_unhandled k
                (s\<lparr>injections_handled := replicate (nat (total_people s)) False\<rparr>) of
           None \<Rightarrow> None
         | Some (Inl e) \<Rightarrow> Some (Inl e)
         | Some (Inr s1) \<Rightarrow> while_vials n k (s1\<lparr>day := day s1 + 1\<rparr>))
      else Some (Inr s))"

text \<open>
  \<^verbatim>\<open>run_simulation\<close>: the invalid-trial signal \<^verbatim>\<open>None\<close> of the source is
  \<open>Inr None\<close>, the list \<^verbatim>\<open>[waste, day, dosage_dicts]\<close> is \<open>Inr (Some (w, d, ds))\<close>.
  \<open>run_state\<close> is the object after the call.
\<close>

definition run_state :: "nat \<Rightarrow> nat \<Rightarrow> simulator \<Rightarrow> (error + simulator) option" where
  "run_state n k s =
     (if early_termination s then Some (Inr s) else while_vials n k (s\<lparr>day := 1\<rparr>))"

definition run_simulation ::
  "nat \<Rightarrow> nat \<Rightarrow> simulator \<Rightarrow> (error + (rat \<times> int \<times> person list) option) option" where
  "run_simulation n k s =
     (if early_termination s then Some (Inr None)
      else
        (case while_vials n k (s\<lparr>day := 1\<rparr>) of
           None \<Rightarrow> None
         | Some (Inl e) \<Rightarrow> Some (Inl e)
         | Some (Inr s1) \<Rightarrow> Some (Inr (Some (waste s1, day s1, dosage_dicts s1)))))"

subsection \<open>Quantities and invariants the properties speak of\<close>

text \<open>
  The roster's smallest and largest dosage as the source reads them:
  \<^verbatim>\<open>dosage_dicts[-1]\<close> and \<^verbatim>\<open>dosage_dicts[0]\<close>.
\<close>

definition min_dose :: "simulator \<Rightarrow> rat" where
  "min_dose s = dosage (last (dosage_dicts s))"

definition max_dose :: "simulator \<Rightarrow> rat" where
  "max_dose s = dosage (hd (dosage_dicts s))"

definition leftover_volume :: "simulator \<Rightarrow> rat" where
  "leftover_volume s = (if leftover_vial s then leftover_amount s else 0)"

text \<open>The volume that injections can still draw on: the primary vial and the leftover.\<close>

definition available :: "simulator \<Rightarrow> rat" where
  "available s = left_in_vial s + leftover_volume s"



text \<open>
  What the constructor establishes for a trial that is not terminated early, and what
  no method changes: a non-empty roster of \<^verbatim>\<open>total_people\<close> entries, every dosage
  between the last and the first one, the last one positive, the first one at most the
  vial volume, and no interval 0.
\<close>

definition valid_roster :: "simulator \<Rightarrow> bool" where
  "valid_roster s \<longleftrightarrow>
     dosage_dicts s \<noteq> [] \<and> length (dosage_dicts s) = nat (total_people s) \<and>
     list_all (\<lambda>p. min_dose s \<le> dosage p \<and> dosage p \<le> max_dose s \<and> frequency p \<noteq> 0)
       (dosage_dicts s) \<and>
     0 < min_dose s \<and> max_dose s \<le> vial_volume s"

text \<open>The vial state between two operations of a valid trial.\<close>

definition vial_ok :: "simulator \<Rightarrow> bool" where
  "vial_ok s \<longleftrightarrow>
     0 \<le> left_in_vial s \<and> 0 \<le> leftover_volume s \<and> 0 \<le> waste s"

text \<open>\<^verbatim>\<open>injections_handled\<close> has one entry per person.\<close>

definition handled_ok :: "simulator \<Rightarrow> bool" where
  "handled_ok s \<longleftrightarrow> length (injections_handled s) = nat (total_people s)"

text \<open>
  The volume of an active leftover that \<^verbatim>\<open>update_vials_used\<close> drops when its second
  branch stores a new leftover over it.
\<close>

definition overwritten :: "simulator \<Rightarrow> rat" where
  "overwritten s =
     (if leftover_vial s \<and> min_dose s \<le> left_in_vial s \<and> left_in_vial s < max_dose s
      then leftover_amount s else 0)"

text \<open>
  The points of a trial: the state together with two quantities the object does not
  hold, the volume injected so far and the leftover volume overwritten so far. Each rule
  is one operation of the day-stepping loop: an injection attempt for a person of the
  roster, a call of \<^verbatim>\<open>update_vials_used\<close>, an assignment to
  \<^verbatim>\<open>injections_handled\<close>, an assignment to \<^verbatim>\<open>day\<close>.
\<close>

inductive reach :: "simulator \<Rightarrow> simulator \<times> rat \<times> rat \<Rightarrow> bool" for s0 where
  start: "reach s0 (s0, 0, 0)"
| inject: "reach s0 (s, c, l) \<Longrightarrow> i < length (dosage_dicts s) \<Longrightarrow>
     do_injection (dosage (dosage_dicts s ! i)) s = Inr (ok, s') \<Longrightarrow>
     reach s0 (s', c + (if ok then dosage (dosage_dicts s ! i) else 0), l)"
| replace: "reach s0 (s, c, l) \<Longrightarrow> update_vials_used s = Inr s' \<Longrightarrow>
     reach s0 (s', c, l + overwritten s)"
| handled: "reach s0 (s, c, l) \<Longrightarrow> reach s0 (s\<lparr>injections_handled := h\<rparr>, c, l)"
| next_day: "reach s0 (s, c, l) \<Longrightarrow> reach s0 (s\<lparr>day := d\<rparr>, c, l)"




text \<open>The attributes that no method assigns after the constructor.\<close>

definition same_trial :: "simulator \<Rightarrow> simulator \<Rightarrow> bool" where
  "same_trial s s' \<longleftrightarrow>
     dosage_dicts s' = dosage_dicts s \<and> total_people s' = total_people s \<and>
     vial_volume s' = vial_volume s \<and> num_vials s' = num_vials s \<and>
     early_termination s' = early_termination s"


text \<open>The dict that the constructor builds for person \<open>i\<close>.\<close>

definition person_of :: "string list \<Rightarrow> (rat \<times> int) list \<Rightarrow> nat \<Rightarrow> person" where
  "person_of namelist dose_info i =
     \<lparr>dosage = round2 (fst (dose_info ! i) * of_int (snd (dose_info ! i))),
      frequency = snd (dose_info ! i),
      name = namelist ! i\<rparr>"

subsection \<open>Concrete trials\<close>

text \<open>
  Two people with daily rates 2 and 4 injecting every day, vials of 5 mL, two vials:
  the state after the constructor and the state when \<^verbatim>\<open>run_simulation\<close> returns.
\<close>

definition roster42 :: "person list" where
  "roster42 = [\<lparr>dosage = 4, frequency = 1, name = ''B''\<rparr>,
               \<lparr>dosage = 2, frequency = 1, name = ''A''\<rparr>]"

definition trial42 :: simulator where
  "trial42 = \<lparr>total_people = 2, num_vials = 2, vial_volume = 5,
     dosage_dicts = roster42, injections_handled = [False, False],
     leftover_vial = False, leftover_amount = 0, vials_used = 0, waste = 0,
     left_in_vial = 5, early_termination = False, day = 0\<rparr>"

definition trial42_end :: simulator where
  "trial42_end = \<lparr>total_people = 2, num_vials = 2, vial_volume = 5,
     dosage_dicts = roster42, injections_handled = [True, True],
     leftover_vial = True, leftover_amount = 3, vials_used = 2, waste = 1,
     left_in_vial = 5, early_termination = False, day = 2\<rparr>"

text \<open>One person with daily rate 2 injecting every day, vials of 5 mL, one vial.\<close>

definition roster2 :: "person list" where
  "roster2 = [\<lparr>dosage = 2, frequency = 1, name = ''A''\<rparr>]"

definition trial2 :: simulator where
  "trial2 = \<lparr>total_people = 1, num_vials = 1, vial_volume = 5,
     dosage_dicts = roster2, injections_handled = [False],
     leftover_vial = False, leftover_amount = 0, vials_used = 0, waste = 0,
     left_in_vial = 5, early_termination = False, day = 0\<rparr>"

text \<open>
  Points of this trial: after the first injection of day 1, at the start of day 2, after
  the for loop of day 2, and when \<^verbatim>\<open>run_simulation\<close> returns.
\<close>

definition trial2_injected :: simulator where
  "trial2_injected = trial2\<lparr>left_in_vial := 3, day := 1\<rparr>"

definition trial2_day2 :: simulator where
  "trial2_day2 = trial2\<lparr>left_in_vial := 3, day := 2\<rparr>"

definition trial2_pass :: simulator where
  "trial2_pass = trial2\<lparr>injections_handled := [True], left_in_vial := 1, day := 2\<rparr>"

definition trial2_end :: simulator where
  "trial2_end = trial2\<lparr>injections_handled := [True], vials_used := 1, waste := 1, day := 3\<rparr>"

text \<open>
  Three people with daily rates 4, 3 and 1 injecting every day, vials of 9 mL, three
  vials: the state after the constructor, the state at the start of day 3, the state
  after the for loop of day 3, and the state when \<^verbatim>\<open>run_simulation\<close> returns.
\<close>

definition roster431 :: "person list" where
  "roster431 = [\<lparr>dosage = 4, frequency = 1, name = ''A''\<rparr>,
                \<lparr>dosage = 3, frequency = 1, name = ''B''\<rparr>,
                \<lparr>dosage = 1, frequency = 1, name = ''C''\<rparr>]"

definition trial431 :: simulator where
  "trial431 = \<lparr>total_people = 3, num_vials = 3, vial_volume = 9,
     dosage_dicts = roster431, injections_handled = [False, False, False],
     leftover_vial = False, leftover_amount = 0, vials_used = 0, waste = 0,
     left_in_vial = 9, early_termination = False, day = 0\<rparr>"

definition trial431_day3 :: simulator where
  "trial431_day3 = trial431\<lparr>leftover_vial := True, leftover_amount := 2, vials_used := 2,
     day := 3\<rparr>"

definition trial431_pass :: simulator where
  "trial431_pass = trial431\<lparr>injections_handled := [True, True, True],
     leftover_vial := True, leftover_amount := 1, vials_used := 2, left_in_vial := 2,
     day := 3\<rparr>"

definition trial431_end :: simulator where
  "trial431_end = trial431\<lparr>injections_handled := [True, True, True],
     leftover_vial := True, leftover_amount := 2, vials_used := 3, day := 4\<rparr>"

text \<open>Three people with daily rate 4 injecting every day, vials of 5 mL, one vial.\<close>

definition roster444 :: "person list" where
  "roster444 = [\<lparr>dosage = 4, frequency = 1, name = ''A''\<rparr>,
                \<lparr>dosage = 4, frequency = 1, name = ''B''\<rparr>,
                \<lparr>dosage = 4, frequency = 1, name = ''C''\<rparr>]"

definition trial444 :: simulator where
  "trial444 = \<lparr>total_people = 3, num_vials = 1, vial_volume = 5,
     dosage_dicts = roster444, injections_handled = [False, False, False],
     leftover_vial = False, leftover_amount = 0, vials_used = 0, waste = 0,
     left_in_vial = 5, early_termination = False, day = 0\<rparr>"

text \<open>Day 1 of this trial after the first for loop: one person served, two not.\<close>

definition trial444_pass :: simulator where
  "trial444_pass = trial444\<lparr>injections_handled := [True, False, False], left_in_vial := 1,
     day := 1\<rparr>"

text \<open>One person with daily rate 6 injecting every day, vials of 5 mL: an invalid trial.\<close>

definition trial6 :: simulator where
  "trial6 = \<lparr>total_people = 1, num_vials = 1, vial_volume = 5,
     dosage_dicts = [\<lparr>dosage = 6, frequency = 1, name = ''A''\<rparr>],
     injections_handled = [False],
     leftover_vial = False, leftover_amount = 0, vials_used = 0, waste = 0,
     left_in_vial = 5, early_termination = True, day = 0\<rparr>"

text \<open>One person with daily rate 2 and interval 0, vials of 5 mL: an invalid trial.\<close>

definition trial0 :: simulator where
  "trial0 = \<lparr>total_people = 1, num_vials = 1, vial_volume = 5,
     dosage_dicts = [\<lparr>dosage = 0, frequency = 0, name = ''A''\<rparr>],
     injections_handled = [False],
     leftover_vial = False, leftover_amount = 0, vials_used = 0, waste = 0,
     left_in_vial = 5, early_termination = True, day = 0\<rparr>"

section \<open>Properties\<close>

subsection \<open>The methods as equations\<close>

lemma do_injection_eq:
  "dosage_dicts s \<noteq> [] \<Longrightarrow> do_injection dose s =
     (if leftover_vial s \<and> dose \<le> leftover_amount s then
        (if leftover_amount s - dose < min_dose s
         then Inr (True, s\<lparr>leftover_amount := leftover_amount s - dose,
                           waste := waste s + (leftover_amount s - dose),
                           leftover_vial := False\<rparr>)
         else Inr (True, s\<lparr>leftover_amount := leftover_amount s - dose\<rparr>))
      else if dose \<le> left_in_vial s then Inr (True, s\<lparr>left_in_vial := left_in_vial s - dose\<rparr>)
      else Inr (False, s))"
  by (cases "dosage_dicts s") (simp_all add: do_injection_def min_dose_def Let_def)

lemma update_vials_used_eq:
  "dosage_dicts s \<noteq> [] \<Longrightarrow> update_vials_used s =
     (if left_in_vial s < min_dose s then
        Inr (s\<lparr>waste := waste s + left_in_vial s, vials_used := vials_used s + 1,
               left_in_vial := vial_volume s\<rparr>)
      else if left_in_vial s < max_dose s then
        Inr (s\<lparr>leftover_vial := True, leftover_amount := left_in_vial s,
               vials_used := vials_used s + 1, left_in_vial := vial_volume s\<rparr>)
      else Inr s)"
  by (cases "dosage_dicts s") (auto simp add: update_vials_used_def min_dose_def max_dose_def)

lemma check_legal_dosages_eq:
  "dosage_dicts s \<noteq> [] \<Longrightarrow> check_legal_dosages s =
     Inr (s\<lparr>early_termination := (vial_volume s < max_dose s \<or> min_dose s \<le> 0)\<rparr>)"
  by (cases "dosage_dicts s") (auto simp add: check_legal_dosages_def min_dose_def max_dose_def Let_def)

lemma check_legal_dosages_empty:
  "dosage_dicts s = [] \<Longrightarrow> check_legal_dosages s = Inl IndexError"
  by (simp add: check_legal_dosages_def)

lemma collect_dicts_Inr:
  "collect_dicts nl di js = Inr ds \<Longrightarrow>
     ds = map (person_of nl di) js \<and> (\<forall>j \<in> set js. j < length di \<and> j < length nl)"
proof (induction js arbitrary: ds)
  case Nil
  then show ?case by simp
next
  case (Cons j js)
  then show ?case
    by (auto simp: dosage_info_def person_of_def split: sum.splits if_splits)
qed


lemma sorted_desc_set: "set (sorted_desc ds) = set ds"
  by (simp add: sorted_desc_def)

lemma sorted_desc_length: "length (sorted_desc ds) = length ds"
  by (simp add: sorted_desc_def)

lemma sorted_desc_sorted: "sorted_wrt (\<lambda>p q. dosage q \<le> dosage p) (sorted_desc ds)"
proof -
  have "sorted (map (\<lambda>p. - dosage p) (sorted_desc ds))"
    by (simp add: sorted_desc_def)
  then show ?thesis
    by (simp add: sorted_map sorted_wrt_iff_nth_less)
qed

lemma sorted_wrt_hd_last:
  assumes "sorted_wrt (\<lambda>p q. dosage q \<le> dosage p) xs" and "x \<in> set xs"
  shows "dosage x \<le> dosage (hd xs) \<and> dosage (last xs) \<le> dosage x"
  using assms
proof (induction xs)
  case Nil
  then show ?case by simp
next
  case (Cons a xs)
  then show ?case by (cases xs) auto
qed

lemma init_Inr:
  assumes "init tp nl di nv vv = Inr s"
  shows "0 < tp \<and> nat tp \<le> length di \<and> nat tp \<le> length nl \<and>
     s = \<lparr>total_people = tp, num_vials = nv, vial_volume = vv,
          dosage_dicts = sorted_desc (map (person_of nl di) [0..<nat tp]),
          injections_handled = replicate (nat tp) False,
          leftover_vial = False, leftover_amount = 0, vials_used = 0,
          waste = 0, left_in_vial = vv,
          early_termination = (vv < max_dose s \<or> min_dose s \<le> 0), day = 0\<rparr>"
proof -
  from assms obtain ds where ds: "collect_dicts nl di [0..<nat tp] = Inr ds"
    by (auto simp: init_def split: sum.splits)
  from collect_dicts_Inr[OF ds] have dsm: "ds = map (person_of nl di) [0..<nat tp]"
    and bnd: "\<forall>j \<in> set [0..<nat tp]. j < length di \<and> j < length nl" by auto
  let ?s0 = "\<lparr>total_people = tp, num_vials = nv, vial_volume = vv,
             dosage_dicts = sorted_desc ds,
             injections_handled = replicate (nat tp) False,
             leftover_vial = False, leftover_amount = 0, vials_used = 0,
             waste = 0, left_in_vial = vv, early_termination = False, day = 0\<rparr>"
  from assms ds have chk: "check_legal_dosages ?s0 = Inr s" by (simp add: init_def)
  have ne: "dosage_dicts ?s0 \<noteq> []"
    using chk check_legal_dosages_empty[of ?s0] by auto
  then have "ds \<noteq> []" by (auto simp: sorted_desc_def)
  with dsm have tp: "0 < tp" by auto
  from bnd tp have l1: "nat tp \<le> length di" and l2: "nat tp \<le> length nl"
    by (auto simp: Ball_def not_less intro!: leI dest!: spec[where x="nat tp - 1"])
  from chk check_legal_dosages_eq[OF ne]
  have "s = ?s0\<lparr>early_termination := (vial_volume ?s0 < max_dose ?s0 \<or> min_dose ?s0 \<le> 0)\<rparr>"
    by simp
  then have "s = \<lparr>total_people = tp, num_vials = nv, vial_volume = vv,
          dosage_dicts = sorted_desc (map (person_of nl di) [0..<nat tp]),
          injections_handled = replicate (nat tp) False,
          leftover_vial = False, leftover_amount = 0, vials_used = 0,
          waste = 0, left_in_vial = vv,
          early_termination = (vv < max_dose s \<or> min_dose s \<le> 0), day = 0\<rparr>"
    by (simp add: dsm max_dose_def min_dose_def)
  with tp l1 l2 show ?thesis by blast
qed

subsection \<open>The constructor and the claims on single methods\<close>

lemma init_trial42: "init 2 [''A'', ''B''] [(2, 1), (4, 1)] 2 5 = Inr trial42"
  by code_simp
lemma init_trial2: "init 1 [''A''] [(2, 1)] 1 5 = Inr trial2"
  by code_simp
lemma init_trial6: "init 1 [''A''] [(6, 1)] 1 5 = Inr trial6"
  by code_simp
lemma run_trial42: "run_state 1 2 trial42 = Some (Inr trial42_end)"
  by code_simp

text \<open>
  Claim C5. \<^verbatim>\<open>do_injection\<close> follows the three-step policy in order: an active
  leftover that covers the dose is drawn on first, a remainder below the roster's minimum
  dosage going to waste and deactivating the leftover, with the primary vial untouched;
  otherwise the primary vial is drawn on if it covers the dose; otherwise the call reports
  failure and changes nothing.
\<close>

theorem do_injection_policy:
  assumes "dosage_dicts s \<noteq> []"
  shows "(leftover_vial s \<and> 0 \<le> leftover_amount s - dose \<longrightarrow>
            do_injection dose s = Inr (True,
              if leftover_amount s - dose < min_dose s
              then s\<lparr>leftover_amount := leftover_amount s - dose,
                     waste := waste s + (leftover_amount s - dose),
                     leftover_vial := False\<rparr>
              else s\<lparr>leftover_amount := leftover_amount s - dose\<rparr>))
       \<and> (\<not> (leftover_vial s \<and> 0 \<le> leftover_amount s - dose) \<and> 0 \<le> left_in_vial s - dose \<longrightarrow>
            do_injection dose s = Inr (True, s\<lparr>left_in_vial := left_in_vial s - dose\<rparr>))
       \<and> (\<not> (leftover_vial s \<and> 0 \<le> leftover_amount s - dose) \<and> \<not> 0 \<le> left_in_vial s - dose \<longrightarrow>
            do_injection dose s = Inr (False, s))"
  using assms by (simp add: do_injection_eq)

theorem do_injection_policy_witness:
  "do_injection 2 trial42_end =
     Inr (True, trial42_end\<lparr>leftover_amount := 1, waste := 2, leftover_vial := False\<rparr>)
   \<and> do_injection 1 trial42_end = Inr (True, trial42_end\<lparr>leftover_amount := 2\<rparr>)
   \<and> do_injection 4 trial42_end = Inr (True, trial42_end\<lparr>left_in_vial := 1\<rparr>)
   \<and> do_injection 6 trial42_end = Inr (False, trial42_end)"
  using do_injection_policy [of trial42_end 2] do_injection_policy [of trial42_end 1]
    do_injection_policy [of trial42_end 4] do_injection_policy [of trial42_end 6]
  by (simp add: trial42_end_def roster42_def min_dose_def)

lemma init_valid_roster:
  assumes "init tp nl di nv vv = Inr s"
  shows "dosage_dicts s \<noteq> []" and "length (dosage_dicts s) = nat (total_people s)"
    and "\<forall>p \<in> set (dosage_dicts s). min_dose s \<le> dosage p \<and> dosage p \<le> max_dose s"
    and "early_termination s \<longleftrightarrow> vial_volume s < max_dose s \<or> min_dose s \<le> 0"
proof -
  note i = init_Inr[OF assms]
  from i have dd: "dosage_dicts s = sorted_desc (map (person_of nl di) [0..<nat tp])"
    and tp: "0 < tp" and tps: "total_people s = tp"
    by (metis simulator.select_convs(4), blast, metis simulator.select_convs(1))
  from dd tp show "dosage_dicts s \<noteq> []"
    by (metis length_0_conv length_map length_upt sorted_desc_length diff_zero nat_0_iff not_less)
  from dd tps show "length (dosage_dicts s) = nat (total_people s)"
    by (simp add: sorted_desc_length)
  from dd have "sorted_wrt (\<lambda>p q. dosage q \<le> dosage p) (dosage_dicts s)"
    by (simp add: sorted_desc_sorted)
  then show "\<forall>p \<in> set (dosage_dicts s). min_dose s \<le> dosage p \<and> dosage p \<le> max_dose s"
    using sorted_wrt_hd_last by (auto simp: min_dose_def max_dose_def)
  from i have "early_termination s = (vv < max_dose s \<or> min_dose s \<le> 0)"
    and "vial_volume s = vv"
    by (metis simulator.select_convs(11), metis simulator.select_convs(3))
  then show "early_termination s \<longleftrightarrow> vial_volume s < max_dose s \<or> min_dose s \<le> 0" by simp
qed




text \<open>
  Claim C10. A trial that passes validation with \<^verbatim>\<open>num_vials\<close> at most 0 never enters
  the day loop and returns waste 0, day 1 and the sorted roster.
\<close>

theorem nonpositive_num_vials:
  assumes "init tp namelist dose_info nv vv = Inr s"
    and "\<not> early_termination s" and "nv \<le> 0"
  shows "run_simulation n k s = Some (Inr (Some (0, 1, dosage_dicts s)))"
proof -
  from init_Inr[OF assms(1)] have "vials_used s = 0" "num_vials s = nv" "waste s = 0"
    by (metis simulator.select_convs(8), metis simulator.select_convs(2), metis simulator.select_convs(9))
  with assms(2,3) show ?thesis
    by (cases n) (simp_all add: run_simulation_def)
qed

theorem nonpositive_num_vials_witness:
  "init 1 [''A''] [(2, 1)] 0 5 = Inr (trial2\<lparr>num_vials := 0\<rparr>)
   \<and> \<not> early_termination (trial2\<lparr>num_vials := 0\<rparr>) \<and> (0::int) \<le> 0
   \<and> run_simulation 0 0 (trial2\<lparr>num_vials := 0\<rparr>) = Some (Inr (Some (0, 1, roster2)))"
proof -
  have i: "init 1 [''A''] [(2, 1)] 0 5 = Inr (trial2\<lparr>num_vials := 0\<rparr>)" by code_simp
  have e: "\<not> early_termination (trial2\<lparr>num_vials := 0\<rparr>)" by (simp add: trial2_def)
  from nonpositive_num_vials [OF i e, of 0 0] i e show ?thesis by (simp add: trial2_def)
qed

subsection \<open>Rounding and the sorted roster\<close>




lemma round2_zero: "round2 0 = 0"
  by (simp add: round2_def round_half_even_def)



lemma round2_examples:
  "round2 (38 / 1000 * 7) = 27 / 100" "round2 (1 / 8) = 12 / 100" "round2 (3 / 8) = 38 / 100"
  "round2 (- (1 / 8)) = - (12 / 100)"
  by code_simp+

subsection \<open>Valid trials and the effect of the two operations\<close>

lemma same_trial_refl: "same_trial s s"
  by (simp add: same_trial_def)

lemma same_trial_trans: "same_trial s s' \<Longrightarrow> same_trial s' s'' \<Longrightarrow> same_trial s s''"
  by (simp add: same_trial_def)


lemma same_trial_valid: "same_trial s s' \<Longrightarrow> valid_roster s' = valid_roster s"
  by (simp add: same_trial_def valid_roster_def min_dose_def max_dose_def)

lemma same_trial_handled: "same_trial s (s\<lparr>injections_handled := h\<rparr>)"
  by (simp add: same_trial_def)

lemma same_trial_day: "same_trial s (s\<lparr>day := d\<rparr>)"
  by (simp add: same_trial_def)

lemma valid_roster_nth:
  assumes "valid_roster s" and "i < length (dosage_dicts s)"
  shows "min_dose s \<le> dosage (dosage_dicts s ! i)"
    and "dosage (dosage_dicts s ! i) \<le> max_dose s"
    and "frequency (dosage_dicts s ! i) \<noteq> 0"
    and "0 < dosage (dosage_dicts s ! i)"
  using assms by (auto simp: valid_roster_def list_all_length)

lemma valid_roster_order:
  assumes "valid_roster s"
  shows "min_dose s \<le> max_dose s" and "0 < min_dose s" and "max_dose s \<le> vial_volume s"
    and "dosage_dicts s \<noteq> []"
proof -
  from assms have ne: "dosage_dicts s \<noteq> []" by (simp add: valid_roster_def)
  then have "hd (dosage_dicts s) \<in> set (dosage_dicts s)" by simp
  with assms show "min_dose s \<le> max_dose s"
    by (auto simp: valid_roster_def list_all_iff max_dose_def)
  from assms show "0 < min_dose s" "max_dose s \<le> vial_volume s" "dosage_dicts s \<noteq> []"
    by (simp_all add: valid_roster_def)
qed

lemma init_valid:
  assumes "init tp nl di nv vv = Inr s" and "\<not> early_termination s"
  shows "valid_roster s" and "vial_ok s" and "handled_ok s"
    and "max_dose s \<le> left_in_vial s" and "vials_used s = 0" and "waste s = 0"
    and "\<not> leftover_vial s"
proof -
  note i = init_Inr[OF assms(1)]
  note v = init_valid_roster[OF assms(1)]
  from i have dd: "dosage_dicts s = sorted_desc (map (person_of nl di) [0..<nat tp])"
    and lv: "left_in_vial s = vv" and vvs: "vial_volume s = vv"
    and lo: "\<not> leftover_vial s" and w: "waste s = 0" and vu: "vials_used s = 0"
    and ih: "injections_handled s = replicate (nat tp) False" and tps: "total_people s = tp"
    by (metis simulator.select_convs(4), metis simulator.select_convs(10),
        metis simulator.select_convs(3), metis simulator.select_convs(6),
        metis simulator.select_convs(9), metis simulator.select_convs(8),
        metis simulator.select_convs(5), metis simulator.select_convs(1))
  from assms(2) v(4) have pos: "0 < min_dose s" and le: "max_dose s \<le> vial_volume s"
    by auto
  have fr: "frequency p \<noteq> 0" if "p \<in> set (dosage_dicts s)" for p
  proof
    assume z: "frequency p = 0"
    from that dd obtain i where "p = person_of nl di i"
      by (auto simp: sorted_desc_set)
    with z have "dosage p = 0" by (simp add: person_of_def round2_zero)
    moreover from v(3) that have "min_dose s \<le> dosage p" by blast
    ultimately show False using pos by simp
  qed
  show "valid_roster s"
    using v(1,2,3) pos le fr by (simp add: valid_roster_def list_all_iff)
  then have "min_dose s \<le> max_dose s" by (rule valid_roster_order)
  with pos le lv vvs lo w show "vial_ok s"
    by (simp add: vial_ok_def leftover_volume_def)
  from ih tps show "handled_ok s" by (simp add: handled_ok_def)
  from le lv vvs show "max_dose s \<le> left_in_vial s" by simp
  from vu w lo show "vials_used s = 0" "waste s = 0" "\<not> leftover_vial s" by simp_all
qed

text \<open>What one injection attempt does to a valid trial.\<close>

lemma do_injection_props:
  assumes "valid_roster s" and "vial_ok s" and "min_dose s \<le> d"
  obtains ok s' where "do_injection d s = Inr (ok, s')"
    and "same_trial s s'" and "vial_ok s'"
    and "vials_used s' = vials_used s" and "injections_handled s' = injections_handled s"
    and "day s' = day s"
    and "left_in_vial s' \<le> left_in_vial s" and "available s' \<le> available s"
    and "ok \<Longrightarrow> available s' + d \<le> available s"
    and "\<not> ok \<Longrightarrow> left_in_vial s' < d"
    and "d \<le> left_in_vial s \<Longrightarrow> ok"
    and "waste s \<le> waste s'"
proof -
  from assms(1) have ne: "dosage_dicts s \<noteq> []" and pos: "0 < min_dose s"
    by (rule valid_roster_order)+
  with assms(3) have dpos: "0 < d" by simp
  have "\<exists>ok s'. do_injection d s = Inr (ok, s')"
    using ne by (auto simp: do_injection_eq)
  then obtain ok s' where r: "do_injection d s = Inr (ok, s')" by blast
  show thesis
  proof (rule that[OF r])
    show "same_trial s s'"
      using r ne by (auto simp: do_injection_eq same_trial_def split: if_splits)
    show "vial_ok s'"
      using r ne assms(2) dpos
      by (auto simp: do_injection_eq vial_ok_def leftover_volume_def split: if_splits)
    show "vials_used s' = vials_used s" "injections_handled s' = injections_handled s"
      "day s' = day s"
      using r ne by (auto simp: do_injection_eq split: if_splits)
    show "left_in_vial s' \<le> left_in_vial s"
      using r ne dpos by (auto simp: do_injection_eq split: if_splits)
    show "available s' \<le> available s"
      using r ne dpos assms(2)
      by (auto simp: do_injection_eq available_def leftover_volume_def vial_ok_def split: if_splits)
    show "available s' + d \<le> available s" if ok
      using that r ne dpos assms(2)
      by (auto simp: do_injection_eq available_def leftover_volume_def vial_ok_def split: if_splits)
    show "left_in_vial s' < d" if "\<not> ok"
      using that r ne by (auto simp: do_injection_eq split: if_splits)
    show ok if "d \<le> left_in_vial s"
      using that r ne by (auto simp: do_injection_eq split: if_splits)
    show "waste s \<le> waste s'"
      using r ne by (auto simp: do_injection_eq split: if_splits)
  qed
qed

text \<open>What \<^verbatim>\<open>update_vials_used\<close> does to a valid trial.\<close>

lemma update_vials_used_props:
  assumes "valid_roster s" and "vial_ok s"
  obtains s' where "update_vials_used s = Inr s'"
    and "same_trial s s'" and "vial_ok s'"
    and "injections_handled s' = injections_handled s" and "day s' = day s"
    and "max_dose s \<le> left_in_vial s'"
    and "vials_used s \<le> vials_used s'"
    and "left_in_vial s < max_dose s \<Longrightarrow> vials_used s' = vials_used s + 1"
    and "max_dose s \<le> left_in_vial s \<Longrightarrow> s' = s"
    and "waste s \<le> waste s'"
proof -
  note o = valid_roster_order[OF assms(1)]
  have "\<exists>s'. update_vials_used s = Inr s'"
    using o(4) by (simp add: update_vials_used_eq)
  then obtain s' where r: "update_vials_used s = Inr s'" by blast
  show thesis
  proof (rule that[OF r])
    show "same_trial s s'"
      using r o(4) by (auto simp: update_vials_used_eq same_trial_def split: if_splits)
    show "vial_ok s'"
      using r o assms(2)
      by (auto simp: update_vials_used_eq vial_ok_def leftover_volume_def split: if_splits)
    show "injections_handled s' = injections_handled s" "day s' = day s"
      using r o(4) by (auto simp: update_vials_used_eq split: if_splits)
    show "max_dose s \<le> left_in_vial s'"
      using r o by (auto simp: update_vials_used_eq split: if_splits)
    show "vials_used s \<le> vials_used s'"
      using r o(4) by (auto simp: update_vials_used_eq split: if_splits)
    show "vials_used s' = vials_used s + 1" if "left_in_vial s < max_dose s"
      using that r o(4) by (auto simp: update_vials_used_eq split: if_splits)
    show "s' = s" if "max_dose s \<le> left_in_vial s"
      using that r o by (auto simp: update_vials_used_eq split: if_splits)
    show "waste s \<le> waste s'"
      using r o(4) assms(2) by (auto simp: update_vials_used_eq vial_ok_def split: if_splits)
  qed
qed

subsection \<open>The points of a trial\<close>




lemma reach_valid:
  assumes "reach s0 x" and "valid_roster s0" and "vial_ok s0"
  shows "same_trial s0 (fst x) \<and> valid_roster (fst x) \<and> vial_ok (fst x)
           \<and> 0 \<le> fst (snd x) \<and> 0 \<le> snd (snd x)"
  using assms
proof (induction rule: reach.induct)
  case start
  then show ?case by (simp add: same_trial_refl)
next
  case (inject s c l i ok s')
  then have ih: "same_trial s0 s" "valid_roster s" "vial_ok s" "0 \<le> c" "0 \<le> l" by simp_all
  note n = valid_roster_nth[OF ih(2) inject.hyps(2)]
  from do_injection_props[OF ih(2,3) n(1)] inject.hyps(3)
  have st: "same_trial s s'" and ok: "vial_ok s'" by auto
  have "same_trial s0 s'" by (rule same_trial_trans[OF ih(1) st])
  moreover have "valid_roster s'" using same_trial_valid[OF st] ih(2) by simp
  ultimately show ?case using ok ih(4,5) n(4) by simp
next
  case (replace s c l s')
  then have ih: "same_trial s0 s" "valid_roster s" "vial_ok s" "0 \<le> c" "0 \<le> l" by simp_all
  from update_vials_used_props[OF ih(2,3)] replace.hyps(2)
  have st: "same_trial s s'" and ok: "vial_ok s'" by auto
  have "0 \<le> leftover_volume s" using ih(3) by (simp add: vial_ok_def)
  then have ov: "0 \<le> overwritten s"
    by (simp add: overwritten_def leftover_volume_def split: if_splits)
  have "same_trial s0 s'" by (rule same_trial_trans[OF ih(1) st])
  moreover have "valid_roster s'" using same_trial_valid[OF st] ih(2) by simp
  ultimately show ?case using ok ih(4,5) ov by simp
next
  case (handled s c l h)
  then have ih: "same_trial s0 s" "valid_roster s" "vial_ok s" "0 \<le> c" "0 \<le> l" by simp_all
  have st: "same_trial s (s\<lparr>injections_handled := h\<rparr>)" by (rule same_trial_handled)
  from ih(3) have ok: "vial_ok (s\<lparr>injections_handled := h\<rparr>)"
    by (auto simp: vial_ok_def leftover_volume_def split: if_splits)
  have "same_trial s0 (s\<lparr>injections_handled := h\<rparr>)" by (rule same_trial_trans[OF ih(1) st])
  moreover have "valid_roster (s\<lparr>injections_handled := h\<rparr>)"
    using same_trial_valid[OF st] ih(2) by simp
  ultimately show ?case using ok ih(4,5) by simp
next
  case (next_day s c l d)
  then have ih: "same_trial s0 s" "valid_roster s" "vial_ok s" "0 \<le> c" "0 \<le> l" by simp_all
  have st: "same_trial s (s\<lparr>day := d\<rparr>)" by (rule same_trial_day)
  from ih(3) have ok: "vial_ok (s\<lparr>day := d\<rparr>)"
    by (auto simp: vial_ok_def leftover_volume_def split: if_splits)
  have "same_trial s0 (s\<lparr>day := d\<rparr>)" by (rule same_trial_trans[OF ih(1) st])
  moreover have "valid_roster (s\<lparr>day := d\<rparr>)"
    using same_trial_valid[OF st] ih(2) by simp
  ultimately show ?case using ok ih(4,5) by simp
qed

text \<open>The loops only go through points of the trial.\<close>

lemma for_people_reach:
  assumes "for_people js s = Inr s'" and "reach s0 (s, c, l)"
  shows "\<exists>c' l'. reach s0 (s', c', l')"
  using assms
proof (induction js arbitrary: s c l)
  case Nil
  then show ?case by auto
next
  case (Cons i js)
  from Cons.prems(1) have i: "i < length (dosage_dicts s)"
    by (auto split: if_splits)
  show ?case
  proof (cases "day s mod frequency (dosage_dicts s ! i) = 0 \<and> \<not> injections_handled s ! i")
    case True
    with Cons.prems(1) i obtain ok s1 where
      d: "do_injection (dosage (dosage_dicts s ! i)) s = Inr (ok, s1)"
      and r: "for_people js (s1\<lparr>injections_handled := (injections_handled s1)[i := ok]\<rparr>) = Inr s'"
      by (auto split: if_splits sum.splits)
    from reach.inject[OF Cons.prems(2) i d]
    have "reach s0 (s1\<lparr>injections_handled := (injections_handled s1)[i := ok]\<rparr>,
            c + (if ok then dosage (dosage_dicts s ! i) else 0), l)"
      by (rule reach.handled)
    from Cons.IH[OF r this] show ?thesis .
  next
    case False
    with Cons.prems(1) i have
      r: "for_people js (s\<lparr>injections_handled := (injections_handled s)[i := True]\<rparr>) = Inr s'"
      by (auto split: if_splits)
    from Cons.IH[OF r reach.handled[OF Cons.prems(2)]] show ?thesis .
  qed
qed

lemma while_unhandled_reach:
  assumes "while_unhandled k s = Some (Inr s')" and "reach s0 (s, c, l)"
  shows "\<exists>c' l'. reach s0 (s', c', l')"
  using assms
proof (induction k arbitrary: s c l)
  case 0
  then show ?case by (auto split: if_splits)
next
  case (Suc k)
  show ?case
  proof (cases "False \<in> set (injections_handled s)")
    case True
    with Suc.prems(1) obtain s1 s2 where
      f: "for_people [0..<nat (total_people s)] s = Inr s1"
      and u: "update_vials_used s1 = Inr s2" and w: "while_unhandled k s2 = Some (Inr s')"
      by (auto split: sum.splits)
    from for_people_reach[OF f Suc.prems(2)] obtain c1 l1 where "reach s0 (s1, c1, l1)"
      by blast
    from reach.replace[OF this u] Suc.IH[OF w] show ?thesis by blast
  next
    case False
    with Suc.prems show ?thesis by auto
  qed
qed

lemma while_vials_reach:
  assumes "while_vials n k s = Some (Inr s')" and "reach s0 (s, c, l)"
  shows "\<exists>c' l'. reach s0 (s', c', l')"
  using assms
proof (induction n arbitrary: s c l)
  case 0
  then show ?case by (auto split: if_splits)
next
  case (Suc n)
  show ?case
  proof (cases "vials_used s < num_vials s")
    case True
    with Suc.prems(1) obtain s1 where
      w: "while_unhandled k (s\<lparr>injections_handled := replicate (nat (total_people s)) False\<rparr>)
            = Some (Inr s1)"
      and v: "while_vials n k (s1\<lparr>day := day s1 + 1\<rparr>) = Some (Inr s')"
      by (auto split: option.splits sum.splits)
    from while_unhandled_reach[OF w reach.handled[OF Suc.prems(2)]]
    obtain c1 l1 where "reach s0 (s1, c1, l1)" by blast
    from Suc.IH[OF v reach.next_day[OF this]] show ?thesis .
  next
    case False
    with Suc.prems show ?thesis by auto
  qed
qed

lemma run_state_reach:
  assumes "run_state n k s0 = Some (Inr s')"
  shows "\<exists>c' l'. reach s0 (s', c', l')"
proof (cases "early_termination s0")
  case True
  with assms have "s' = s0" by (simp add: run_state_def)
  then show ?thesis using reach.start by blast
next
  case False
  with assms have "while_vials n k (s0\<lparr>day := 1\<rparr>) = Some (Inr s')"
    by (simp add: run_state_def)
  from while_vials_reach[OF this reach.next_day[OF reach.start]] show ?thesis .
qed

lemma run_simulation_state:
  "run_simulation n k s = Some (Inr (Some (w, d, r))) \<longleftrightarrow>
     \<not> early_termination s \<and>
     (\<exists>s'. run_state n k s = Some (Inr s') \<and> w = waste s' \<and> d = day s' \<and> r = dosage_dicts s')"
  by (auto simp: run_simulation_def run_state_def split: option.splits sum.splits)

subsection \<open>Conservation of volume\<close>

lemma init_conservation:
  assumes "init tp nl di nv vv = Inr s"
  shows "waste s + left_in_vial s + leftover_volume s = (of_int (vials_used s) + 1) * vial_volume s"
    and "waste s = 0"
proof -
  from init_Inr[OF assms] have "left_in_vial s = vv" "vial_volume s = vv"
    "\<not> leftover_vial s" "waste s = 0" "vials_used s = 0"
    by (metis simulator.select_convs(10), metis simulator.select_convs(3),
        metis simulator.select_convs(6), metis simulator.select_convs(9),
        metis simulator.select_convs(8))
  then show "waste s + left_in_vial s + leftover_volume s
      = (of_int (vials_used s) + 1) * vial_volume s" and "waste s = 0"
    by (simp_all add: leftover_volume_def)
qed

lemma reach_trial2_injected: "reach trial2 (trial2_injected, 2, 0)"
proof -
  have a: "reach trial2 (trial2\<lparr>day := 1\<rparr>, 0, 0)"
    by (rule reach.next_day[OF reach.start])
  have i: "0 < length (dosage_dicts (trial2\<lparr>day := 1\<rparr>))"
    by (simp add: trial2_def roster2_def)
  have d: "do_injection (dosage (dosage_dicts (trial2\<lparr>day := 1\<rparr>) ! 0)) (trial2\<lparr>day := 1\<rparr>)
             = Inr (True, trial2_injected)"
    by (simp add: do_injection_def trial2_def roster2_def trial2_injected_def)
  have e: "dosage (dosage_dicts trial2 ! 0) = 2" by (simp add: trial2_def roster2_def)
  from reach.inject[OF a i d] show ?thesis by (simp add: e)
qed




text \<open>
  The trial with dosages 4, 3 and 1 over its three days: the first two days end in the
  state that day 3 starts from, day 3 ends in the state returned, and its replacement
  overwrites 1 mL. The 24 mL injected in three days, the 9 mL in the vial and the 2 mL
  leftover make 35 mL of the 36 mL of four vials.
\<close>

lemma init_trial431:
  "init 3 [''A'', ''B'', ''C''] [(4, 1), (3, 1), (1, 1)] 3 9 = Inr trial431"
  by code_simp

lemma leftover_overwritten_example:
  "run_state 2 1 (trial431\<lparr>num_vials := 2\<rparr>)
     = Some (Inr (trial431_day3\<lparr>num_vials := 2, injections_handled := [True, True, True]\<rparr>))"
  "while_unhandled 1 trial431_day3 = Some (Inr (trial431_end\<lparr>day := 3\<rparr>))"
  "run_state 3 1 trial431 = Some (Inr trial431_end)"
  "overwritten trial431_pass = 1"
  "waste trial431_end + 24 + left_in_vial trial431_end + leftover_volume trial431_end = 35"
  "(of_int (vials_used trial431_end) + 1) * vial_volume trial431_end = 36"
  by code_simp+

subsection \<open>Waste\<close>

text \<open>
  Claim C8. Waste starts at 0. In a trial that passes validation it is never negative at
  any point, and every call of \<^verbatim>\<open>do_injection\<close> for a person of the roster and every
  call of \<^verbatim>\<open>update_vials_used\<close> leaves it unchanged or increases it; the waste
  returned by \<^verbatim>\<open>run_simulation\<close> is not negative. A trial terminated early runs no
  operation, so its waste stays 0.
\<close>

theorem waste_monotone:
  assumes "init tp namelist dose_info nv vv = Inr s0"
  shows "waste s0 = 0
    \<and> (early_termination s0 \<longrightarrow> run_state n k s0 = Some (Inr s0))
    \<and> (\<not> early_termination s0 \<and> reach s0 (s, c, l) \<longrightarrow>
         0 \<le> waste s
         \<and> (\<forall>i ok s'. i < length (dosage_dicts s)
               \<and> do_injection (dosage (dosage_dicts s ! i)) s = Inr (ok, s')
               \<longrightarrow> waste s \<le> waste s')
         \<and> (\<forall>s'. update_vials_used s = Inr s' \<longrightarrow> waste s \<le> waste s'))
    \<and> (\<forall>w d r. run_simulation n k s0 = Some (Inr (Some (w, d, r))) \<longrightarrow> 0 \<le> w)"
proof -
  have w0: "waste s0 = 0" by (rule init_conservation(2)[OF assms])
  have et: "run_state n k s0 = Some (Inr s0)" if "early_termination s0"
    using that by (simp add: run_state_def)
  have pt: "0 \<le> waste s
         \<and> (\<forall>i ok s'. i < length (dosage_dicts s)
               \<and> do_injection (dosage (dosage_dicts s ! i)) s = Inr (ok, s')
               \<longrightarrow> waste s \<le> waste s')
         \<and> (\<forall>s'. update_vials_used s = Inr s' \<longrightarrow> waste s \<le> waste s')"
    if ne: "\<not> early_termination s0" and r: "reach s0 (s, c, l)" for s c l
  proof -
    note v = init_valid[OF assms ne]
    from reach_valid[OF r v(1,2)] have vs: "valid_roster s" and ok: "vial_ok s" by simp_all
    have "waste s \<le> waste s'"
      if "i < length (dosage_dicts s)"
        and "do_injection (dosage (dosage_dicts s ! i)) s = Inr (ok', s')" for i ok' s'
      using do_injection_props[OF vs ok valid_roster_nth(1)[OF vs that(1)]] that(2)
      by (metis Inr_inject prod.inject)
    moreover have "waste s \<le> waste s'" if "update_vials_used s = Inr s'" for s'
      using update_vials_used_props[OF vs ok] that by (metis Inr_inject)
    moreover from ok have "0 \<le> waste s" by (simp add: vial_ok_def)
    ultimately show ?thesis by blast
  qed
  have fin: "0 \<le> w" if "run_simulation n k s0 = Some (Inr (Some (w, d, r)))" for w d r
  proof -
    from that obtain s' where ne: "\<not> early_termination s0"
      and rs: "run_state n k s0 = Some (Inr s')" and w: "w = waste s'"
      by (auto simp: run_simulation_state)
    from run_state_reach[OF rs] obtain c' l' where "reach s0 (s', c', l')" by blast
    from pt[OF ne this] w show ?thesis by simp
  qed
  from w0 et pt fin show ?thesis by blast
qed

lemma run_trial2: "run_state 2 1 trial2 = Some (Inr trial2_end)"
  "run_simulation 2 1 trial2 = Some (Inr (Some (1, 3, roster2)))"
  by code_simp+

theorem waste_monotone_witness:
  "init 1 [''A''] [(2, 1)] 1 5 = Inr trial2 \<and> \<not> early_termination trial2
   \<and> reach trial2 (trial2_injected, 2, 0) \<and> waste trial2 = 0 \<and> 0 \<le> waste trial2_injected
   \<and> do_injection 2 trial2_injected = Inr (True, trial2_injected\<lparr>left_in_vial := 1\<rparr>)
   \<and> waste trial2_injected \<le> waste (trial2_injected\<lparr>left_in_vial := 1\<rparr>)
   \<and> update_vials_used trial2_injected = Inr trial2_injected
   \<and> run_simulation 2 1 trial2 = Some (Inr (Some (1, 3, roster2))) \<and> (0::rat) \<le> 1
   \<and> init 1 [''A''] [(6, 1)] 1 5 = Inr trial6 \<and> early_termination trial6
   \<and> run_state 2 1 trial6 = Some (Inr trial6)"
proof -
  have e: "\<not> early_termination trial2" by (simp add: trial2_def)
  have e6: "early_termination trial6" by (simp add: trial6_def)
  have d: "do_injection 2 trial2_injected = Inr (True, trial2_injected\<lparr>left_in_vial := 1\<rparr>)"
    "update_vials_used trial2_injected = Inr trial2_injected"
    by code_simp+
  have i: "0 < length (dosage_dicts trial2_injected)"
    "dosage (dosage_dicts trial2_injected ! 0) = 2"
    by (simp_all add: trial2_injected_def trial2_def roster2_def)
  from waste_monotone [OF init_trial2, of 2 1 trial2_injected 2 0] e reach_trial2_injected
  have w: "waste trial2 = 0" "0 \<le> waste trial2_injected"
    "\<forall>i ok s'. i < length (dosage_dicts trial2_injected)
        \<and> do_injection (dosage (dosage_dicts trial2_injected ! i)) trial2_injected = Inr (ok, s')
        \<longrightarrow> waste trial2_injected \<le> waste s'"
    by simp_all
  from w(3) i d(1) have m: "waste trial2_injected \<le> waste (trial2_injected\<lparr>left_in_vial := 1\<rparr>)"
    by metis
  from waste_monotone [OF init_trial6, of 2 1] e6
  have "run_state 2 1 trial6 = Some (Inr trial6)" by simp
  with w(1,2) m d e e6 init_trial2 init_trial6 reach_trial2_injected run_trial2(2)
  show ?thesis by simp
qed

subsection \<open>Vial replacement in the loop\<close>

lemma while_unhandled_done:
  "False \<notin> set (injections_handled s) \<Longrightarrow> while_unhandled k s = Some (Inr s)"
  by (cases k) simp_all

lemma update_vials_used_handled:
  "update_vials_used s = Inr s' \<Longrightarrow> injections_handled s' = injections_handled s"
  by (auto simp: update_vials_used_def split: list.splits if_splits)

text \<open>
  On day 2 of the trial with one person and dosage 2 the only injection succeeds, the
  for loop leaves no entry \<^verbatim>\<open>False\<close>, and \<^verbatim>\<open>update_vials_used\<close> is called all the
  same: it discards the remaining 1 mL and opens the next vial.
\<close>

theorem replacement_after_success_counterexample:
  "while_unhandled 1 (trial2\<lparr>day := 1\<rparr>) = Some (Inr (trial2_day2\<lparr>injections_handled := [True], day := 1\<rparr>))
   \<and> do_injection 2 trial2_day2 = Inr (True, trial2_day2\<lparr>left_in_vial := 1\<rparr>)
   \<and> for_people [0..<nat (total_people trial2_day2)] trial2_day2 = Inr trial2_pass
   \<and> False \<notin> set (injections_handled trial2_pass)
   \<and> update_vials_used trial2_pass
        = Inr (trial2_pass\<lparr>waste := 1, vials_used := 1, left_in_vial := 5\<rparr>)
   \<and> while_unhandled 1 trial2_day2
        = Some (Inr (trial2_pass\<lparr>waste := 1, vials_used := 1, left_in_vial := 5\<rparr>))
   \<and> trial2_pass\<lparr>waste := 1, vials_used := 1, left_in_vial := 5\<rparr> \<noteq> trial2_pass"
  by code_simp

text \<open>
  Claim C3, amended. \<^verbatim>\<open>update_vials_used\<close> is called at the end of every pass of the
  inner loop, whether or not an injection attempt failed in it: the loop goes on from the
  state \<^verbatim>\<open>update_vials_used\<close> returns, and after a pass in which every due injection
  succeeded that state is the result of the loop. In a valid trial the call is a no-op when
  \<^verbatim>\<open>left_in_vial\<close> covers the roster's maximum dosage, and otherwise it replaces
  the vial: the remainder goes to waste when it is below the minimum dosage and becomes
  the leftover when it is not.
\<close>

theorem update_vials_used_every_pass:
  assumes "valid_roster s"
  shows "(max_dose s \<le> left_in_vial s \<longrightarrow> update_vials_used s = Inr s)
    \<and> (left_in_vial s < max_dose s \<longrightarrow>
         (\<exists>s'. update_vials_used s = Inr s' \<and> vials_used s' = vials_used s + 1
            \<and> left_in_vial s' = vial_volume s
            \<and> (left_in_vial s < min_dose s \<longrightarrow> waste s' = waste s + left_in_vial s)
            \<and> (min_dose s \<le> left_in_vial s \<longrightarrow>
                  leftover_vial s' \<and> leftover_amount s' = left_in_vial s \<and> waste s' = waste s)))
    \<and> (\<forall>s0 k. False \<in> set (injections_handled s0)
           \<and> for_people [0..<nat (total_people s0)] s0 = Inr s
         \<longrightarrow> while_unhandled (Suc k) s0
               = (case update_vials_used s of
                    Inl e \<Rightarrow> Some (Inl e)
                  | Inr s2 \<Rightarrow> while_unhandled k s2))
    \<and> (\<forall>s0 k. False \<in> set (injections_handled s0)
           \<and> for_people [0..<nat (total_people s0)] s0 = Inr s
           \<and> False \<notin> set (injections_handled s)
         \<longrightarrow> while_unhandled (Suc k) s0 = Some (update_vials_used s))"
proof -
  note o = valid_roster_order[OF assms]
  have g: "while_unhandled (Suc k) s0
               = (case update_vials_used s of
                    Inl e \<Rightarrow> Some (Inl e)
                  | Inr s2 \<Rightarrow> while_unhandled k s2)"
    if "False \<in> set (injections_handled s0)"
      and "for_people [0..<nat (total_people s0)] s0 = Inr s" for s0 k
    using that by simp
  have a: "update_vials_used s = Inr s" if "max_dose s \<le> left_in_vial s"
    using that o by (simp add: update_vials_used_eq)
  have b: "\<exists>s'. update_vials_used s = Inr s' \<and> vials_used s' = vials_used s + 1
            \<and> left_in_vial s' = vial_volume s
            \<and> (left_in_vial s < min_dose s \<longrightarrow> waste s' = waste s + left_in_vial s)
            \<and> (min_dose s \<le> left_in_vial s \<longrightarrow>
                  leftover_vial s' \<and> leftover_amount s' = left_in_vial s \<and> waste s' = waste s)"
    if "left_in_vial s < max_dose s"
    using that o by (simp add: update_vials_used_eq)
  have c: "while_unhandled (Suc k) s0 = Some (update_vials_used s)"
    if "False \<in> set (injections_handled s0)"
      and "for_people [0..<nat (total_people s0)] s0 = Inr s"
      and "False \<notin> set (injections_handled s)" for s0 k
  proof (cases "update_vials_used s")
    case (Inl e)
    with that show ?thesis by simp
  next
    case (Inr s2)
    from update_vials_used_handled[OF Inr] that(3)
    have "False \<notin> set (injections_handled s2)" by simp
    from while_unhandled_done[OF this] Inr that show ?thesis by simp
  qed
  from a b g c show ?thesis by blast
qed

lemma valid_trial2_pass: "valid_roster trial2_pass" "valid_roster trial2_injected"
  by (simp_all add: valid_roster_def trial2_pass_def trial2_injected_def trial2_def roster2_def
      min_dose_def max_dose_def)

lemma valid_trial444_pass: "valid_roster trial444_pass"
  by (simp add: valid_roster_def trial444_pass_def trial444_def roster444_def
      min_dose_def max_dose_def)

theorem update_vials_used_every_pass_witness:
  "valid_roster trial2_injected \<and> max_dose trial2_injected \<le> left_in_vial trial2_injected
   \<and> update_vials_used trial2_injected = Inr trial2_injected
   \<and> valid_roster trial2_pass \<and> left_in_vial trial2_pass < max_dose trial2_pass
   \<and> (\<exists>s'. update_vials_used trial2_pass = Inr s' \<and> vials_used s' = 1 \<and> left_in_vial s' = 5
          \<and> waste s' = 1)
   \<and> False \<in> set (injections_handled trial2_day2)
   \<and> for_people [0..<nat (total_people trial2_day2)] trial2_day2 = Inr trial2_pass
   \<and> False \<notin> set (injections_handled trial2_pass)
   \<and> while_unhandled (Suc 0) trial2_day2 = Some (update_vials_used trial2_pass)
   \<and> valid_roster trial444_pass
   \<and> False \<in> set (injections_handled (trial444\<lparr>day := 1\<rparr>))
   \<and> for_people [0..<nat (total_people (trial444\<lparr>day := 1\<rparr>))] (trial444\<lparr>day := 1\<rparr>)
       = Inr trial444_pass
   \<and> False \<in> set (injections_handled trial444_pass)
   \<and> update_vials_used trial444_pass
       = Inr (trial444_pass\<lparr>waste := 1, vials_used := 1, left_in_vial := 5\<rparr>)
   \<and> while_unhandled (Suc 2) (trial444\<lparr>day := 1\<rparr>)
       = while_unhandled 2 (trial444_pass\<lparr>waste := 1, vials_used := 1, left_in_vial := 5\<rparr>)"
proof -
  have f: "for_people [0..<nat (total_people trial2_day2)] trial2_day2 = Inr trial2_pass"
    by code_simp
  have h: "False \<in> set (injections_handled trial2_day2)"
    "False \<notin> set (injections_handled trial2_pass)"
    by (simp_all add: trial2_day2_def trial2_pass_def trial2_def)
  have m: "max_dose trial2_injected \<le> left_in_vial trial2_injected"
    "left_in_vial trial2_pass < max_dose trial2_pass" "left_in_vial trial2_pass < min_dose trial2_pass"
    by (simp_all add: trial2_injected_def trial2_pass_def trial2_def roster2_def max_dose_def min_dose_def)
  have v: "vials_used trial2_pass = 0" "vial_volume trial2_pass = 5" "waste trial2_pass = 0"
    "left_in_vial trial2_pass = 1"
    by (simp_all add: trial2_pass_def trial2_def)
  have f4: "for_people [0..<nat (total_people (trial444\<lparr>day := 1\<rparr>))] (trial444\<lparr>day := 1\<rparr>)
       = Inr trial444_pass"
    by code_simp
  have h4: "False \<in> set (injections_handled (trial444\<lparr>day := 1\<rparr>))"
    "False \<in> set (injections_handled trial444_pass)"
    by (simp_all add: trial444_pass_def trial444_def)
  have u4: "update_vials_used trial444_pass
       = Inr (trial444_pass\<lparr>waste := 1, vials_used := 1, left_in_vial := 5\<rparr>)"
    by code_simp
  from update_vials_used_every_pass [OF valid_trial444_pass] h4(1) f4
  have "while_unhandled (Suc 2) (trial444\<lparr>day := 1\<rparr>)
       = (case update_vials_used trial444_pass of
            Inl e \<Rightarrow> Some (Inl e)
          | Inr s2 \<Rightarrow> while_unhandled 2 s2)"
    by blast
  then have w4: "while_unhandled (Suc 2) (trial444\<lparr>day := 1\<rparr>)
       = while_unhandled 2 (trial444_pass\<lparr>waste := 1, vials_used := 1, left_in_vial := 5\<rparr>)"
    by (simp add: u4)
  from update_vials_used_every_pass [OF valid_trial2_pass(2)]
    update_vials_used_every_pass [OF valid_trial2_pass(1)] f h m v valid_trial2_pass
  have "valid_roster trial2_injected \<and> max_dose trial2_injected \<le> left_in_vial trial2_injected
   \<and> update_vials_used trial2_injected = Inr trial2_injected
   \<and> valid_roster trial2_pass \<and> left_in_vial trial2_pass < max_dose trial2_pass
   \<and> (\<exists>s'. update_vials_used trial2_pass = Inr s' \<and> vials_used s' = 1 \<and> left_in_vial s' = 5
          \<and> waste s' = 1)
   \<and> False \<in> set (injections_handled trial2_day2)
   \<and> for_people [0..<nat (total_people trial2_day2)] trial2_day2 = Inr trial2_pass
   \<and> False \<notin> set (injections_handled trial2_pass)
   \<and> while_unhandled (Suc 0) trial2_day2 = Some (update_vials_used trial2_pass)"
    by auto
  with valid_trial444_pass h4 f4 u4 w4 show ?thesis by blast
qed

subsection \<open>The returned day\<close>

lemma do_injection_frame:
  assumes "do_injection d s = Inr (ok, s')"
  shows "same_trial s s'" and "day s' = day s" and "vials_used s' = vials_used s"
    and "injections_handled s' = injections_handled s"
  using assms
  by (auto simp: do_injection_def same_trial_def Let_def split: if_splits list.splits)

lemma update_vials_used_frame:
  assumes "update_vials_used s = Inr s'"
  shows "same_trial s s'" and "day s' = day s" and "vials_used s \<le> vials_used s'"
  using assms
  by (auto simp: update_vials_used_def same_trial_def split: if_splits list.splits)

lemma for_people_frame:
  assumes "for_people js s = Inr s'"
  shows "same_trial s s' \<and> day s' = day s \<and> vials_used s' = vials_used s"
  using assms
proof (induction js arbitrary: s)
  case Nil
  then show ?case by (simp add: same_trial_refl)
next
  case (Cons i js)
  show ?case
  proof (cases "day s mod frequency (dosage_dicts s ! i) = 0 \<and> \<not> injections_handled s ! i")
    case True
    with Cons.prems obtain ok s1 where
      d: "do_injection (dosage (dosage_dicts s ! i)) s = Inr (ok, s1)"
      and r: "for_people js (s1\<lparr>injections_handled := (injections_handled s1)[i := ok]\<rparr>) = Inr s'"
      by (auto split: if_splits sum.splits)
    note f = do_injection_frame[OF d]
    from Cons.IH[OF r] have "same_trial (s1\<lparr>injections_handled := (injections_handled s1)[i := ok]\<rparr>) s'"
      and e: "day s' = day s1" "vials_used s' = vials_used s1" by simp_all
    then have "same_trial s1 s'" by (simp add: same_trial_def)
    with f(1) have "same_trial s s'" by (rule same_trial_trans)
    with e f(2,3) show ?thesis by simp
  next
    case False
    with Cons.prems have
      r: "for_people js (s\<lparr>injections_handled := (injections_handled s)[i := True]\<rparr>) = Inr s'"
      by (auto split: if_splits)
    from Cons.IH[OF r] show ?thesis by (simp add: same_trial_def)
  qed
qed

lemma while_unhandled_frame:
  assumes "while_unhandled k s = Some (Inr s')"
  shows "same_trial s s' \<and> day s' = day s \<and> vials_used s \<le> vials_used s'"
  using assms
proof (induction k arbitrary: s)
  case 0
  then show ?case by (auto simp: same_trial_refl split: if_splits)
next
  case (Suc k)
  show ?case
  proof (cases "False \<in> set (injections_handled s)")
    case True
    with Suc.prems obtain s1 s2 where
      f: "for_people [0..<nat (total_people s)] s = Inr s1"
      and u: "update_vials_used s1 = Inr s2" and w: "while_unhandled k s2 = Some (Inr s')"
      by (auto split: sum.splits)
    note a = for_people_frame[OF f] and b = update_vials_used_frame[OF u] and c = Suc.IH[OF w]
    from a b(1) c have "same_trial s s'" using same_trial_trans by blast
    with a b c show ?thesis by simp
  next
    case False
    with Suc.prems show ?thesis by (auto simp: same_trial_refl)
  qed
qed

text \<open>
  The day loop returns after exactly as many days as it takes \<^verbatim>\<open>vials_used\<close> to reach
  \<^verbatim>\<open>num_vials\<close>, and \<^verbatim>\<open>day\<close> has been advanced once for each of them.
\<close>

lemma while_vials_days:
  assumes "while_vials n k s = Some (Inr s')"
  shows "\<exists>m\<le>n. day s' = day s + int m \<and> while_vials m k s = Some (Inr s')
           \<and> (\<forall>j<m. while_vials j k s = None) \<and> num_vials s' \<le> vials_used s'
           \<and> same_trial s s'"
  using assms
proof (induction n arbitrary: s)
  case 0
  then show ?case by (auto simp: same_trial_refl split: if_splits)
next
  case (Suc n)
  show ?case
  proof (cases "vials_used s < num_vials s")
    case True
    with Suc.prems obtain s1 where
      w: "while_unhandled k (s\<lparr>injections_handled := replicate (nat (total_people s)) False\<rparr>)
            = Some (Inr s1)"
      and v: "while_vials n k (s1\<lparr>day := day s1 + 1\<rparr>) = Some (Inr s')"
      by (auto split: option.splits sum.splits)
    from while_unhandled_frame[OF w] have d1: "day s1 = day s" and st: "same_trial s s1"
      by (simp_all add: same_trial_def)
    from Suc.IH[OF v] obtain m where m: "m \<le> n" "day s' = day s1 + 1 + int m"
      "while_vials m k (s1\<lparr>day := day s1 + 1\<rparr>) = Some (Inr s')"
      "\<forall>j<m. while_vials j k (s1\<lparr>day := day s1 + 1\<rparr>) = None"
      "num_vials s' \<le> vials_used s'" "same_trial (s1\<lparr>day := day s1 + 1\<rparr>) s'"
      by auto
    have none: "while_vials j k s = None" if "j < Suc m" for j
    proof (cases j)
      case 0
      with True show ?thesis by simp
    next
      case (Suc j')
      with that m(4) have "while_vials j' k (s1\<lparr>day := day s1 + 1\<rparr>) = None" by simp
      with Suc True w show ?thesis by simp
    qed
    from m(6) st have "same_trial s s'" by (simp add: same_trial_def)
    moreover from True w m(3) have "while_vials (Suc m) k s = Some (Inr s')" by simp
    moreover from m(2) d1 have "day s' = day s + int (Suc m)" by simp
    ultimately show ?thesis using m(1,5) none
      by (intro exI[of _ "Suc m"]) simp
  next
    case False
    with Suc.prems have "s' = s" by simp
    with False show ?thesis by (intro exI[of _ 0]) (simp add: same_trial_refl)
  qed
qed

lemma returned_day_is_days_plus_one:
  assumes "run_simulation n k s = Some (Inr (Some (w, d, r)))"
  shows "\<exists>m\<le>n. d = 1 + int m \<and> run_simulation m k s = Some (Inr (Some (w, d, r)))
           \<and> (\<forall>j<m. run_simulation j k s = None)"
proof -
  from assms obtain s' where ne: "\<not> early_termination s"
    and rs: "while_vials n k (s\<lparr>day := 1\<rparr>) = Some (Inr s')"
    and e: "w = waste s'" "d = day s'" "r = dosage_dicts s'"
    by (auto simp: run_simulation_def split: if_splits option.splits sum.splits)
  from while_vials_days[OF rs] obtain m where m: "m \<le> n" "day s' = 1 + int m"
    "while_vials m k (s\<lparr>day := 1\<rparr>) = Some (Inr s')"
    "\<forall>j<m. while_vials j k (s\<lparr>day := 1\<rparr>) = None"
    by auto
  from m(3) ne e have "run_simulation m k s = Some (Inr (Some (w, d, r)))"
    by (simp add: run_simulation_def)
  moreover from m(4) ne have "\<forall>j<m. run_simulation j k s = None"
    by (simp add: run_simulation_def)
  ultimately show ?thesis using m(1,2) e(2) by blast
qed

text \<open>
  Claim C2. One person, dosage 2 every day, vials of 5 mL, one vial: day 1 ends with
  \<^verbatim>\<open>vials_used = 0\<close>, day 2 ends with \<^verbatim>\<open>vials_used = 1 = num_vials\<close>, and
  \<^verbatim>\<open>run_simulation\<close> returns day 3, because \<^verbatim>\<open>day\<close> is incremented once more
  before the loop condition is read. The returned day is one more than the day on which
  the target was reached.
\<close>

theorem returned_day_example:
  "init 1 [''A''] [(2, 1)] 1 5 = Inr trial2
   \<and> while_unhandled 1 (trial2\<lparr>day := 1\<rparr>)
       = Some (Inr (trial2\<lparr>injections_handled := [True], left_in_vial := 3, day := 1\<rparr>))
   \<and> while_unhandled 1 trial2_day2 = Some (Inr (trial2_end\<lparr>day := 2\<rparr>))
   \<and> vials_used (trial2_end\<lparr>day := 2\<rparr>) = num_vials trial2
   \<and> run_state 2 1 trial2 = Some (Inr trial2_end)
   \<and> run_simulation 2 1 trial2 = Some (Inr (Some (1, 3, roster2)))"
  by code_simp

subsection \<open>One pass of the for loop in a valid trial\<close>




subsection \<open>The inner loop in a valid trial\<close>





subsection \<open>One day of a valid trial and the measure of the day loop\<close>






subsection \<open>Termination and the absence of errors\<close>








lemma for_people_zero_interval:
  "for_people [0..<1] (trial0\<lparr>day := 1\<rparr>) = Inl ZeroDivisionError"
  by code_simp


end
